theory Spec2Isabelle
  imports Complex_Main "HOL-Library.Multiset" "HOL-Library.Log_Nat"
begin

section \<open>Values of the Python program\<close>

text \<open>
  The exceptions that the expressions of \<^verbatim>\<open>retriever.py\<close> raise themselves: a missing
  dictionary key, an index into an empty list, the division of an integer by zero and a
  quotient of integers too large for a float.
\<close>

datatype py_error = KeyError | IndexError | ZeroDivisionError | OverflowError

text \<open>
  A Python float is either a number or \<^verbatim>\<open>float('inf')\<close>. In \<open>computeStats\<close>,
  \<open>alertAvailability\<close> and \<open>checkAlert\<close> a quotient of two counts is kept as the exact
  rational, before Python rounds it to a double: the correctly rounded quotient \<open>a / n\<close>
  is at least the float \<^verbatim>\<open>0.8\<close> exactly when \<open>4 / 5 \<le> a / n\<close>, for every \<open>n\<close>
  below \<open>10 ^ 16\<close>, so the comparisons of the alert state machine are those of the
  code. The double that \<^verbatim>\<open>getStats\<close> stores as the availability is
  \<open>computeAvailability\<close>, with the rounding of \<open>truediv\<close>.
\<close>

datatype pyfloat = Finite rat | PosInf

text \<open>\<^verbatim>\<open>collections.Counter\<close>: a multiset; \<^verbatim>\<open>c[k]\<close> is \<open>count c k\<close> and
  \<^verbatim>\<open>sum(c.values())\<close> is \<open>size c\<close>.\<close>

type_synonym 'a counter = "'a multiset"

definition Counter :: "'a list \<Rightarrow> 'a counter" where
  "Counter xs = mset xs"

text \<open>\<^verbatim>\<open>str\<close> of a Python integer, in decimal.\<close>

fun str_nat :: "nat \<Rightarrow> string" where
  "str_nat n =
     (if n < 10 then [char_of (48 + n)]
      else str_nat (n div 10) @ [char_of (48 + n mod 10)])"

declare str_nat.simps [simp del]

definition str_int :: "int \<Rightarrow> string" where
  "str_int i = (if i < 0 then CHR ''-'' # str_nat (nat (- i)) else str_nat (nat i))"

section \<open>The store client\<close>

text \<open>
  The raw result of a query is a dictionary. Its key \<^verbatim>\<open>'series'\<close> is absent when
  the store has no series for the query (\<open>None\<close>); otherwise it holds a list of
  series, each with its list of \<^verbatim>\<open>'values'\<close>.
\<close>

type_synonym 'r raw = "'r list list option"

text \<open>
  A row of \<^verbatim>\<open>SELECT available, status, responseTime\<close>: \<^verbatim>\<open>elt[0]\<close> is the
  time, \<^verbatim>\<open>elt[1]\<close>, \<^verbatim>\<open>elt[2]\<close> and \<^verbatim>\<open>elt[3]\<close> are the three fields, each
  of which may be \<^verbatim>\<open>None\<close>.
\<close>

record probeRow =
  p_time :: string
  p_available :: "bool option"
  p_status :: "int option"
  p_responseTime :: "rat option"

text \<open>A row of \<^verbatim>\<open>SELECT available\<close>: the time and the field.\<close>

record alertRow =
  a_time :: string
  a_available :: "bool option"

text \<open>
  The two queries the retriever sends, as functions of the values that are formatted
  into the query text: the number of minutes and the host of \<open>query_stats\<close>, the host
  of \<open>query_available\<close> (whose window is fixed to two minutes).
\<close>

record influxClient =
  query_stats :: "nat \<Rightarrow> string \<Rightarrow> probeRow raw"
  query_available :: "string \<Rightarrow> alertRow raw"

text \<open>A point handed to \<^verbatim>\<open>write_points\<close>.\<close>

record point =
  measurement :: string
  host :: string
  time :: string
  ptype :: string
  pavailability :: rat

section \<open>The retriever\<close>

record 't retriever =
  URL :: string
  alertStatus :: bool
  alertNumber :: int
  alertTime :: 't

text \<open>\<^verbatim>\<open>Retriever.__init__\<close>; \<open>now\<close> is \<^verbatim>\<open>datetime.now()\<close>.\<close>

definition Retriever :: "string \<Rightarrow> 't \<Rightarrow> 't retriever" where
  "Retriever url now =
     \<lparr>URL = url, alertStatus = False, alertNumber = 0, alertTime = now\<rparr>"

record stats =
  availability :: rat
  statusCodes :: "int option counter"
  avgRT :: pyfloat
  minRT :: pyfloat
  maxRT :: pyfloat

text \<open>\<^verbatim>\<open>min(xs, default=float('inf'))\<close> and \<^verbatim>\<open>max(xs, default=float('inf'))\<close>.\<close>

definition min_default :: "rat list \<Rightarrow> pyfloat" where
  "min_default xs = (case xs of [] \<Rightarrow> PosInf | x # ys \<Rightarrow> Finite (fold min ys x))"

definition max_default :: "rat list \<Rightarrow> pyfloat" where
  "max_default xs = (case xs of [] \<Rightarrow> PosInf | x # ys \<Rightarrow> Finite (fold max ys x))"

text \<open>
  \<^verbatim>\<open>Retriever.getStats\<close>, from the raw result of its query on. The second
  component of the result is \<open>None\<close> for the empty dictionary \<^verbatim>\<open>{}\<close>. The division
  for \<^verbatim>\<open>avgRT\<close> is inside \<^verbatim>\<open>try\<close>; the division for \<^verbatim>\<open>availability\<close>
  is not. The field \<open>availability\<close> holds the exact quotient of the two counts; the
  double that Python makes of it is \<open>computeAvailability\<close>.
\<close>

definition computeStats :: "probeRow raw \<Rightarrow> py_error + bool \<times> stats option" where
  "computeStats data =
     (case data of
        None \<Rightarrow> Inr (False, None)
      | Some series \<Rightarrow>
          (case series of
             [] \<Rightarrow> Inl IndexError
           | vals # _ \<Rightarrow>
               (let availables = Counter (map the (filter (\<lambda>a. a \<noteq> None) (map p_available vals)));
                    responseTimes = map the (filter (\<lambda>r. r \<noteq> None) (map p_responseTime vals));
                    statusCodes = Counter (map p_status vals);
                    nRT = length responseTimes;
                    minRT = min_default responseTimes;
                    maxRT = max_default responseTimes;
                    avgRT = (if nRT = 0 then PosInf
                             else Finite (sum_list responseTimes / of_nat nRT));
                    n = size availables
                in if n = 0 then Inl ZeroDivisionError
                   else Inr (True, Some
                     \<lparr>availability = of_nat (count availables True) / of_nat n,
                      statusCodes = statusCodes,
                      avgRT = avgRT,
                      minRT = minRT,
                      maxRT = maxRT\<rparr>))))"

definition getStats :: "influxClient \<Rightarrow> 't retriever \<Rightarrow> nat \<Rightarrow> py_error + bool \<times> stats option" where
  "getStats client self minutes = computeStats (query_stats client minutes (URL self))"

section \<open>The division of two integers\<close>

text \<open>\<^verbatim>\<open>int.bit_length()\<close> of a natural number.\<close>

fun bit_length :: "nat \<Rightarrow> nat" where
  "bit_length n = (if n = 0 then 0 else Suc (bit_length (n div 2)))"

declare bit_length.simps [simp del]


text \<open>
  The binary exponent of \<open>a / n\<close> for positive \<open>a\<close> and \<open>n\<close>: the \<open>e\<close> with
  \<open>2 ^ e \<le> a / n < 2 ^ (e + 1)\<close>. The difference of the bit lengths is \<open>e\<close> or
  \<open>e + 1\<close>.
\<close>

definition float_exponent :: "nat \<Rightarrow> nat \<Rightarrow> int" where
  "float_exponent a n =
     (let e0 = int (bit_length a) - int (bit_length n)
      in if (2::rat) powi e0 \<le> of_nat a / of_nat n then e0 else e0 - 1)"





section \<open>The alert check\<close>

text \<open>
  The notification \<^verbatim>\<open>checkAlert\<close> returns: \<^verbatim>\<open>{"type": None}\<close>, or a dictionary
  with the five keys.
\<close>

datatype 't notification =
  NoNotification
  | Notification (ntype: string) (nURL: string) (navailability: rat) (nalertTime: 't)
      (nalertNumber: string)

text \<open>
  Lines 116 to 119 of \<^verbatim>\<open>checkAlert\<close>: the availability over the rows of the
  two-minute query. The counter is built from every \<^verbatim>\<open>elt[1]\<close>, \<^verbatim>\<open>None\<close>
  included; \<^verbatim>\<open>raw['series']\<close> is read without a test for the key.
\<close>

definition alertAvailability :: "alertRow raw \<Rightarrow> py_error + rat" where
  "alertAvailability data =
     (case data of
        None \<Rightarrow> Inl KeyError
      | Some series \<Rightarrow>
          (case series of
             [] \<Rightarrow> Inl IndexError
           | vals # _ \<Rightarrow>
               (let availables = Counter (map a_available vals);
                    n = size availables
                in if n = 0 then Inl ZeroDivisionError
                   else Inr (of_nat (count availables (Some True)) / of_nat n))))"

definition alert_point :: "string \<Rightarrow> string \<Rightarrow> string \<Rightarrow> rat \<Rightarrow> point" where
  "alert_point url t kind a =
     \<lparr>measurement = ''website_alerts'', host = url, time = t, ptype = kind,
      pavailability = a\<rparr>"

text \<open>
  \<^verbatim>\<open>Retriever.checkAlert\<close>. \<open>strftime\<close> renders a date as
  \<^verbatim>\<open>'%Y-%m-%dT%H:%M:%SZ'\<close> and \<open>currentDate\<close> is \<^verbatim>\<open>datetime.utcnow()\<close>. The
  result is the retriever after the call, the points given to \<^verbatim>\<open>write_points\<close>
  and the notification. An exception is raised before any attribute is assigned and
  before any point is written.
\<close>

definition checkAlert ::
  "('t \<Rightarrow> string) \<Rightarrow> influxClient \<Rightarrow> 't retriever \<Rightarrow> 't \<Rightarrow>
     py_error + 't retriever \<times> point list \<times> 't notification" where
  "checkAlert strftime client self currentDate =
     (case alertAvailability (query_available client (URL self)) of
        Inl e \<Rightarrow> Inl e
      | Inr avail \<Rightarrow>
          if alertStatus self \<and> avail \<ge> 8 / 10 then
            (let data = [alert_point (URL self) (strftime currentDate) ''recovery'' avail];
                 self1 = self\<lparr>alertStatus := False\<rparr>
             in Inr (self1, data,
                  Notification ''recovery'' (URL self1) avail currentDate
                    (str_int (alertNumber self1))))
          else if alertStatus self then
            Inr (self, [],
              Notification ''alert'' (URL self) avail (alertTime self)
                (str_int (alertNumber self)))
          else if \<not> alertStatus self \<and> avail < 8 / 10 then
            (let data = [alert_point (URL self) (strftime currentDate) ''alert'' avail];
                 self1 = self\<lparr>alertStatus := True\<rparr>;
                 self2 = self1\<lparr>alertNumber := alertNumber self1 + 1\<rparr>;
                 self3 = self2\<lparr>alertTime := currentDate\<rparr>
             in Inr (self3, data,
                  Notification ''alert'' (URL self3) avail (alertTime self3)
                    (str_int (alertNumber self3))))
          else Inr (self, [], NoNotification))"

section \<open>Successive evaluations of one target\<close>

text \<open>
  The report task calls \<^verbatim>\<open>checkAlert\<close> on the same retriever at every firing.
  A call that raises leaves the retriever as it was. A call is given by the state of
  the store (the client's answers) and the reading of the clock.
\<close>

definition evaluate ::
  "('t \<Rightarrow> string) \<Rightarrow> 't retriever \<Rightarrow> influxClient \<times> 't \<Rightarrow> 't retriever" where
  "evaluate strftime self call =
     (case checkAlert strftime (fst call) self (snd call) of
        Inl e \<Rightarrow> self
      | Inr r \<Rightarrow> fst r)"

text \<open>The retriever before the first call and after each call.\<close>

fun alertStates ::
  "('t \<Rightarrow> string) \<Rightarrow> 't retriever \<Rightarrow> (influxClient \<times> 't) list \<Rightarrow> 't retriever list" where
  "alertStates strftime self [] = [self]"
| "alertStates strftime self (call # calls) =
     self # alertStates strftime (evaluate strftime self call) calls"

text \<open>The number of steps from not alerting to alerting in a sequence of states.\<close>

fun raised :: "'t retriever list \<Rightarrow> nat" where
  "raised (a # b # rs) = (if \<not> alertStatus a \<and> alertStatus b then 1 else 0) + raised (b # rs)"
| "raised rs = 0"

section \<open>The application: timers and the report\<close>

text \<open>
  \<^verbatim>\<open>threading.Timer(interval, function, args)\<close> for the two callbacks of
  \<^verbatim>\<open>main.py\<close>. \<open>PrintResults d p c\<close> calls
  \<^verbatim>\<open>__printResults(retrievers, p, c)\<close> after \<open>d\<close> seconds; \<open>GetResults d m i\<close> calls
  \<^verbatim>\<open>__getResults(m, i)\<close> after \<open>d\<close> seconds. A monitor is named by its website.
\<close>

datatype timer = PrintResults rat rat int | GetResults rat string rat

fun delay :: "timer \<Rightarrow> rat" where
  "delay (PrintResults d p c) = d"
| "delay (GetResults d m i) = d"

text \<open>
  \<^verbatim>\<open>App.__getResults\<close> as the sequence of its effects, in the order of the source:
  the timer of the next firing is created and started, then the monitor probes.
\<close>

datatype action = Start timer | Get string

definition getResults :: "string \<Rightarrow> rat \<Rightarrow> action list" where
  "getResults monitor checkInterval =
     [Start (GetResults checkInterval monitor checkInterval), Get monitor]"

text \<open>
  The effects on a time line. A started timer fires its delay after the moment of
  \<^verbatim>\<open>start()\<close>; a probe of monitor \<open>m\<close> lasts \<open>dur m\<close> seconds and the callback
  goes on when it has returned. \<open>fires\<close> are the armed timers with their firing
  times, \<open>probes\<close> the probes with their first and last moments.
\<close>

record timeline =
  clock :: rat
  fires :: "(rat \<times> timer) list"
  probes :: "(string \<times> rat \<times> rat) list"

fun perform :: "(string \<Rightarrow> rat) \<Rightarrow> action \<Rightarrow> timeline \<Rightarrow> timeline" where
  "perform dur (Start tm) tline = tline\<lparr>fires := fires tline @ [(clock tline + delay tm, tm)]\<rparr>"
| "perform dur (Get m) tline =
     tline\<lparr>probes := probes tline @ [(m, clock tline, clock tline + dur m)], clock := clock tline + dur m\<rparr>"

text \<open>One firing of the probe task of \<open>monitor\<close> at time \<open>t\<close>.\<close>

definition fireGetResults :: "(string \<Rightarrow> rat) \<Rightarrow> rat \<Rightarrow> string \<Rightarrow> rat \<Rightarrow> timeline" where
  "fireGetResults dur t monitor checkInterval =
     fold (perform dur) (getResults monitor checkInterval)
       \<lparr>clock = t, fires = [], probes = []\<rparr>"

text \<open>Two probes of one monitor that run at the same time: each starts before the other
  ends. A probe is given by its monitor, its first and its last moment.\<close>

definition overlap :: "string \<times> rat \<times> rat \<Rightarrow> string \<times> rat \<times> rat \<Rightarrow> bool" where
  "overlap a b =
     (fst a = fst b \<and> fst (snd a) < snd (snd b) \<and> fst (snd b) < snd (snd a))"

text \<open>
  Lines 87 to 94 of \<^verbatim>\<open>App.__printResults\<close>: the timer of the next firing and
  \<^verbatim>\<open>printMinuteCheck\<close>.
\<close>

definition rearm :: "rat \<Rightarrow> int \<Rightarrow> timer \<times> bool" where
  "rearm printInterval countdownToNextMinute =
     (if countdownToNextMinute = 0 then (PrintResults printInterval printInterval 5, True)
      else (PrintResults printInterval printInterval (countdownToNextMinute - 1), False))"

text \<open>
  The variables bound by one iteration of the loop over the retrievers. \<open>e_stats1h\<close>
  is \<open>None\<close> when \<^verbatim>\<open>getStats(60)\<close> was not called.
\<close>

record 't evaluation =
  e_URL :: string
  e_alertStatus :: "'t notification"
  e_stats2m :: "bool \<times> stats option"
  e_stats10m :: "bool \<times> stats option"
  e_stats1h :: "(bool \<times> stats option) option"

text \<open>
  One iteration: the retriever after it, the points written, and the variables or the
  exception. An exception of \<^verbatim>\<open>getStats\<close> comes after \<^verbatim>\<open>checkAlert\<close>
  has changed the retriever and written its point.
\<close>

definition reportWebsite ::
  "('t \<Rightarrow> string) \<Rightarrow> influxClient \<Rightarrow> 't \<Rightarrow> bool \<Rightarrow> 't retriever \<Rightarrow>
     't retriever \<times> point list \<times> (py_error + 't evaluation)" where
  "reportWebsite strftime client now printMinuteCheck retriever =
     (case checkAlert strftime client retriever now of
        Inl e \<Rightarrow> (retriever, [], Inl e)
      | Inr (retriever1, pts, alertStatus1) \<Rightarrow>
          (case getStats client retriever1 2 of
             Inl e \<Rightarrow> (retriever1, pts, Inl e)
           | Inr s2 \<Rightarrow>
               (case getStats client retriever1 10 of
                  Inl e \<Rightarrow> (retriever1, pts, Inl e)
                | Inr s10 \<Rightarrow>
                    if printMinuteCheck then
                      (case getStats client retriever1 60 of
                         Inl e \<Rightarrow> (retriever1, pts, Inl e)
                       | Inr s60 \<Rightarrow>
                           (retriever1, pts, Inr
                             \<lparr>e_URL = URL retriever1, e_alertStatus = alertStatus1,
                              e_stats2m = s2, e_stats10m = s10, e_stats1h = Some s60\<rparr>))
                    else
                      (retriever1, pts, Inr
                        \<lparr>e_URL = URL retriever1, e_alertStatus = alertStatus1,
                         e_stats2m = s2, e_stats10m = s10, e_stats1h = None\<rparr>))))"

text \<open>
  The loop over \<^verbatim>\<open>retrievers.items()\<close>, a dictionary in insertion order.
  \<open>utcnow\<close> gives the reading of the clock in the iteration of a website. An exception
  ends the loop: the retrievers that follow are not evaluated.
\<close>

fun reportLoop ::
  "('t \<Rightarrow> string) \<Rightarrow> influxClient \<Rightarrow> (string \<Rightarrow> 't) \<Rightarrow> bool \<Rightarrow>
     (string \<times> 't retriever) list \<Rightarrow>
     (string \<times> 't retriever) list \<times> point list \<times> (py_error + 't evaluation list)" where
  "reportLoop strftime client utcnow printMinuteCheck [] = ([], [], Inr [])"
| "reportLoop strftime client utcnow printMinuteCheck ((website, retriever) # rest) =
     (case reportWebsite strftime client (utcnow website) printMinuteCheck retriever of
        (retriever1, pts, Inl e) \<Rightarrow> ((website, retriever1) # rest, pts, Inl e)
      | (retriever1, pts, Inr ev) \<Rightarrow>
          (case reportLoop strftime client utcnow printMinuteCheck rest of
             (rest1, pts1, Inl e) \<Rightarrow> ((website, retriever1) # rest1, pts @ pts1, Inl e)
           | (rest1, pts1, Inr evs) \<Rightarrow>
               ((website, retriever1) # rest1, pts @ pts1, Inr (ev # evs))))"

text \<open>
  What the report holds for one website: the statistics that are formatted, each with
  its window, and the notification; or the line that says there is no data. The
  formatting itself (\<^verbatim>\<open>utils.py\<close>) is not part of the model.
\<close>

datatype 't report_section =
  WebsiteStats string "(nat \<times> stats option) list" "'t notification"
  | NoData string

definition reportSection :: "bool \<Rightarrow> 't evaluation \<Rightarrow> 't report_section" where
  "reportSection printMinuteCheck ev =
     (if fst (e_stats2m ev) then
        WebsiteStats (e_URL ev)
          ([(2, snd (e_stats2m ev)), (10, snd (e_stats10m ev))] @
           (case e_stats1h ev of
              None \<Rightarrow> []
            | Some s60 \<Rightarrow> if printMinuteCheck \<and> fst s60 then [(60, snd s60)] else []))
          (e_alertStatus ev)
      else NoData (e_URL ev))"

text \<open>
  \<^verbatim>\<open>App.__printResults\<close>: the timer it starts, \<^verbatim>\<open>printMinuteCheck\<close>, the
  retrievers and the points written after the loop, the variables of each iteration
  and what is printed. The store is read as one state \<open>client\<close> per firing.
\<close>

record 't firing =
  resultsPrinting :: timer
  printMinuteCheck :: bool
  retrieversAfter :: "(string \<times> 't retriever) list"
  written :: "point list"
  evaluations :: "py_error + 't evaluation list"
  printed :: "py_error + 't report_section list"

definition printResults ::
  "('t \<Rightarrow> string) \<Rightarrow> influxClient \<Rightarrow> (string \<Rightarrow> 't) \<Rightarrow>
     (string \<times> 't retriever) list \<Rightarrow> rat \<Rightarrow> int \<Rightarrow> 't firing" where
  "printResults strftime client utcnow retrievers printInterval countdownToNextMinute =
     (case rearm printInterval countdownToNextMinute of
        (tm, pmc) \<Rightarrow>
          (case reportLoop strftime client utcnow pmc retrievers of
             (retrievers1, pts, res) \<Rightarrow>
               \<lparr>resultsPrinting = tm, printMinuteCheck = pmc,
                retrieversAfter = retrievers1, written = pts,
                evaluations = res,
                printed = map_sum id (map (reportSection pmc)) res\<rparr>))"

text \<open>
  \<^verbatim>\<open>App.run\<close>, from the loaded configuration on (a dictionary from website to
  check interval, in insertion order): the retrievers and the timers it starts.
  \<open>now\<close> gives \<^verbatim>\<open>datetime.now()\<close> for the retriever of a website.
\<close>

definition resultsPrintingTimer :: timer where
  "resultsPrintingTimer = PrintResults 10 10 5"

definition run ::
  "(string \<times> rat) list \<Rightarrow> (string \<Rightarrow> 't) \<Rightarrow> (string \<times> 't retriever) list \<times> timer list" where
  "run websites now =
     (map (\<lambda>(website, checkInterval). (website, Retriever website (now website))) websites,
      resultsPrintingTimer #
      map (\<lambda>(website, checkInterval). GetResults checkInterval website checkInterval) websites)"

text \<open>
  The countdown that the firings of the report task receive: \<open>firingCountdown i\<close> is
  the argument of firing number \<open>i + 1\<close>. The first comes from the timer of
  \<^verbatim>\<open>run\<close>, each next one from the timer the firing before it has started.
\<close>

fun timerCountdown :: "timer \<Rightarrow> int" where
  "timerCountdown (PrintResults d p c) = c"
| "timerCountdown (GetResults d m i) = 0"

fun firingCountdown :: "nat \<Rightarrow> int" where
  "firingCountdown 0 = timerCountdown resultsPrintingTimer"
| "firingCountdown (Suc i) = timerCountdown (fst (rearm 10 (firingCountdown i)))"

section \<open>Counting records\<close>

text \<open>
  The two counts of the ratio as the specification words it: the records whose
  availability is not absent, and among them the records whose availability is true.
\<close>

definition present :: "probeRow \<Rightarrow> bool" where
  "present r = (p_available r \<noteq> None)"

definition healthy :: "probeRow \<Rightarrow> bool" where
  "healthy r = (p_available r = Some True)"

text \<open>
  The row of \<^verbatim>\<open>SELECT available\<close> for a record of the store, when the store
  answers both queries of the retriever from the same records.
\<close>

definition selectAvailable :: "probeRow \<Rightarrow> alertRow" where
  "selectAvailable r = \<lparr>a_time = p_time r, a_available = p_available r\<rparr>"

section \<open>Stores used as examples\<close>

definition down_client :: influxClient where
  "down_client =
     \<lparr>query_stats = (\<lambda>m h. None),
      query_available = (\<lambda>h. Some [[\<lparr>a_time = ''t'', a_available = Some False\<rparr>]])\<rparr>"

definition up_client :: influxClient where
  "up_client =
     \<lparr>query_stats = (\<lambda>m h. None),
      query_available = (\<lambda>h. Some [[\<lparr>a_time = ''t'', a_available = Some True\<rparr>]])\<rparr>"

text \<open>A store that answers every query with one series made of the given records.\<close>

definition store_client :: "probeRow list \<Rightarrow> influxClient" where
  "store_client rows =
     \<lparr>query_stats = (\<lambda>m h. Some [rows]),
      query_available = (\<lambda>h. Some [map selectAvailable rows])\<rparr>"

definition probe_row :: "bool option \<Rightarrow> int option \<Rightarrow> rat option \<Rightarrow> probeRow" where
  "probe_row a s r = \<lparr>p_time = ''t'', p_available = a, p_status = s, p_responseTime = r\<rparr>"

definition one_record_client :: influxClient where
  "one_record_client = store_client [probe_row (Some True) (Some 200) (Some (1 / 4))]"

definition one_record_stats :: stats where
  "one_record_stats =
     \<lparr>availability = 1, statusCodes = {#Some 200#},
      avgRT = Finite (1 / 4), minRT = Finite (1 / 4), maxRT = Finite (1 / 4)\<rparr>"

text \<open>The same store when it reports no series for the query of the alert check.\<close>

definition no_alert_series_client :: influxClient where
  "no_alert_series_client = one_record_client\<lparr>query_available := \<lambda>h. None\<rparr>"

definition alerting_retriever :: "nat retriever" where
  "alerting_retriever = \<lparr>URL = ''u'', alertStatus = True, alertNumber = 1, alertTime = 1\<rparr>"

section \<open>The alert query without a series\<close>

text \<open>
  C6. When the store reports no series for the two-minute query of a target,
  \<^verbatim>\<open>checkAlert\<close> raises (the key \<^verbatim>\<open>'series'\<close> is read unguarded) and returns
  no notification; a series with no rows makes the division by the number of rows
  raise as well.
\<close>

theorem checkAlert_no_series_faults:
  "checkAlert strftime (client\<lparr>query_available := \<lambda>h. None\<rparr>) self now = Inl KeyError \<and>
   checkAlert strftime (client\<lparr>query_available := \<lambda>h. Some [[]]\<rparr>) self now
     = Inl ZeroDivisionError"
  by (simp add: checkAlert_def alertAvailability_def Counter_def)

section \<open>The alert state machine\<close>

lemma checkAlert_cases:
  assumes "alertAvailability (query_available c (URL self)) = Inr a"
  shows "checkAlert f c self now =
     (if alertStatus self \<and> 8 / 10 \<le> a then
        Inr (self\<lparr>alertStatus := False\<rparr>, [alert_point (URL self) (f now) ''recovery'' a],
          Notification ''recovery'' (URL self) a now (str_int (alertNumber self)))
      else if alertStatus self then
        Inr (self, [],
          Notification ''alert'' (URL self) a (alertTime self) (str_int (alertNumber self)))
      else if a < 8 / 10 then
        Inr (self\<lparr>alertStatus := True, alertNumber := alertNumber self + 1, alertTime := now\<rparr>,
          [alert_point (URL self) (f now) ''alert'' a],
          Notification ''alert'' (URL self) a now (str_int (alertNumber self + 1)))
      else Inr (self, [], NoNotification))"
  using assms by (simp add: checkAlert_def Let_def)

lemma checkAlert_Inr_avail:
  assumes "checkAlert f c self now = Inr r"
  obtains a where "alertAvailability (query_available c (URL self)) = Inr a"
  using assms
  by (cases "alertAvailability (query_available c (URL self))") (auto simp: checkAlert_def)

lemma checkAlert_number:
  assumes "checkAlert f c self now = Inr (self', pts, ntf)"
  shows "alertNumber self' =
           alertNumber self + (if \<not> alertStatus self \<and> alertStatus self' then 1 else 0)"
proof -
  from assms obtain a where a: "alertAvailability (query_available c (URL self)) = Inr a"
    by (rule checkAlert_Inr_avail)
  show ?thesis using assms unfolding checkAlert_cases [OF a]
    by (auto split: if_splits)
qed

lemma checkAlert_URL:
  assumes "checkAlert f c self now = Inr (self', pts, ntf)"
  shows "URL self' = URL self"
proof -
  from assms obtain a where a: "alertAvailability (query_available c (URL self)) = Inr a"
    by (rule checkAlert_Inr_avail)
  show ?thesis using assms unfolding checkAlert_cases [OF a]
    by (auto split: if_splits)
qed

lemma evaluate_number:
  "alertNumber (evaluate f self call) =
     alertNumber self +
       (if \<not> alertStatus self \<and> alertStatus (evaluate f self call) then 1 else 0)"
proof (cases "checkAlert f (fst call) self (snd call)")
  case (Inl e)
  then show ?thesis by (simp add: evaluate_def)
next
  case (Inr r)
  obtain self' pts ntf where r: "r = (self', pts, ntf)" by (cases r) auto
  from checkAlert_number [of f "fst call" self "snd call" self' pts ntf] Inr r
  show ?thesis by (simp add: evaluate_def)
qed

lemma alertStates_nonempty: "alertStates f self calls \<noteq> []"
  by (cases calls) simp_all

lemma alertStates_hd: "hd (alertStates f self calls) = self"
  by (cases calls) simp_all

lemma alertStates_last_number:
  "alertNumber (last (alertStates f self calls)) =
     alertNumber self + int (raised (alertStates f self calls))"
proof (induction calls arbitrary: self)
  case Nil
  show ?case by simp
next
  case (Cons call calls)
  obtain s ss where ss: "alertStates f (evaluate f self call) calls = s # ss"
    using alertStates_nonempty [of f "evaluate f self call" calls]
    by (cases "alertStates f (evaluate f self call) calls") auto
  have s: "s = evaluate f self call"
    using alertStates_hd [of f "evaluate f self call" calls] ss by simp
  from Cons.IH [of "evaluate f self call"] ss s evaluate_number [of f self call]
  show ?case by simp
qed

lemma alertStates_lower:
  "s \<in> set (alertStates f self calls) \<Longrightarrow> alertNumber self \<le> alertNumber s"
proof (induction calls arbitrary: self)
  case Nil
  then show ?case by simp
next
  case (Cons call calls)
  have "alertNumber self \<le> alertNumber (evaluate f self call)"
    using evaluate_number [of f self call] by simp
  with Cons show ?case by fastforce
qed

lemma alertStates_sorted: "sorted (map alertNumber (alertStates f self calls))"
proof (induction calls arbitrary: self)
  case Nil
  show ?case by simp
next
  case (Cons call calls)
  have "alertNumber self \<le> alertNumber s"
    if "s \<in> set (alertStates f (evaluate f self call) calls)" for s
    using alertStates_lower [OF that] evaluate_number [of f self call]
    by (simp split: if_splits)
  with Cons.IH [of "evaluate f self call"] show ?case by auto
qed

lemma avail_down: "alertAvailability (query_available down_client h) = Inr 0"
  by (simp add: down_client_def alertAvailability_def Counter_def)

lemma avail_up: "alertAvailability (query_available up_client h) = Inr 1"
  by (simp add: up_client_def alertAvailability_def Counter_def)

lemma str_int_1: "str_int 1 = ''1''"
  by code_simp

text \<open>
  C1. The alert number of a new retriever is 0. A call of \<^verbatim>\<open>checkAlert\<close> that
  returns adds exactly 1 to it when the target goes from not alerting to alerting and
  leaves it unchanged otherwise, so it never decreases; a call on an alerting target
  with availability below 0.8 changes nothing of the retriever and writes nothing.
  Over any sequence of calls the numbers are non-decreasing, and the last one is the
  first plus the number of steps from not alerting to alerting.
\<close>

theorem alertNumber_sequence:
  fixes self :: "'t retriever"
  shows
  "alertNumber (Retriever url t0 :: 't retriever) = 0 \<and>
   (\<forall>self' pts ntf. checkAlert f c self now = Inr (self', pts, ntf) \<longrightarrow>
      alertNumber self \<le> alertNumber self' \<and>
      alertNumber self' =
        alertNumber self + (if \<not> alertStatus self \<and> alertStatus self' then 1 else 0)) \<and>
   (\<forall>a. alertStatus self \<and> alertAvailability (query_available c (URL self)) = Inr a \<and>
        a < 8 / 10 \<longrightarrow>
      (\<exists>ntf. checkAlert f c self now = Inr (self, [], ntf))) \<and>
   sorted (map alertNumber (alertStates f self calls)) \<and>
   alertNumber (last (alertStates f self calls)) =
     alertNumber self + int (raised (alertStates f self calls))"
proof (intro conjI allI impI)
  show "alertNumber (Retriever url t0 :: 't retriever) = 0"
    by (simp add: Retriever_def)
next
  fix self' pts ntf
  assume r: "checkAlert f c self now = Inr (self', pts, ntf)"
  from checkAlert_number [OF r]
  show "alertNumber self' =
        alertNumber self + (if \<not> alertStatus self \<and> alertStatus self' then 1 else 0)" .
  then show "alertNumber self \<le> alertNumber self'"
    by (simp split: if_splits)
next
  fix a
  assume "alertStatus self \<and> alertAvailability (query_available c (URL self)) = Inr a \<and>
        a < 8 / 10"
  then show "\<exists>ntf. checkAlert f c self now = Inr (self, [], ntf)"
    by (simp add: checkAlert_cases)
next
  show "sorted (map alertNumber (alertStates f self calls))"
    by (rule alertStates_sorted)
next
  show "alertNumber (last (alertStates f self calls)) =
     alertNumber self + int (raised (alertStates f self calls))"
    by (rule alertStates_last_number)
qed

theorem alertNumber_sequence_witness:
  "checkAlert (\<lambda>t. ''now'') down_client (Retriever ''u'' (0::nat)) 1
     = Inr (\<lparr>URL = ''u'', alertStatus = True, alertNumber = 1, alertTime = 1\<rparr>,
            [alert_point ''u'' ''now'' ''alert'' 0],
            Notification ''alert'' ''u'' 0 1 ''1'') \<and>
   alertNumber \<lparr>URL = ''u'', alertStatus = True, alertNumber = 1, alertTime = (1::nat)\<rparr>
     = alertNumber (Retriever ''u'' (0::nat)) + 1 \<and>
   map alertNumber (alertStates (\<lambda>t. ''now'') (Retriever ''u'' (0::nat))
       [(down_client, 1), (down_client, 2), (up_client, 3), (down_client, 4)])
     = [0, 1, 1, 1, 2] \<and>
   raised (alertStates (\<lambda>t. ''now'') (Retriever ''u'' (0::nat))
       [(down_client, 1), (down_client, 2), (up_client, 3), (down_client, 4)]) = 2"
  using alertNumber_sequence [of "''u''" "0::nat" "\<lambda>t. ''now''" down_client
      "Retriever ''u'' (0::nat)" 1
      "[(down_client, 1), (down_client, 2), (up_client, 3), (down_client, 4)]"]
  by (simp add: checkAlert_cases avail_down avail_up Retriever_def evaluate_def
      str_int_1)

text \<open>
  C3. A call of \<^verbatim>\<open>checkAlert\<close> that returns has computed an availability \<open>a\<close>;
  the target is alerting afterwards exactly when \<open>a < 0.8\<close>. When the target goes
  from not alerting to alerting the call writes exactly one point, of measurement
  \<^verbatim>\<open>website_alerts\<close>, with the target as host, the formatted current date as
  time, the type \<^verbatim>\<open>alert\<close> and the availability \<open>a\<close>; when it goes from alerting
  to not alerting it writes exactly one such point of type \<^verbatim>\<open>recovery\<close>; when
  the status stays as it was it writes no point.
\<close>

theorem alert_events_on_transitions:
  assumes "checkAlert f c self now = Inr (self', pts, ntf)"
  shows "\<exists>a. alertAvailability (query_available c (URL self)) = Inr a \<and>
     alertStatus self' = (a < 8 / 10) \<and>
     pts = (if \<not> alertStatus self \<and> alertStatus self'
              then [\<lparr>measurement = ''website_alerts'', host = URL self, time = f now,
                     ptype = ''alert'', pavailability = a\<rparr>]
            else if alertStatus self \<and> \<not> alertStatus self'
              then [\<lparr>measurement = ''website_alerts'', host = URL self, time = f now,
                     ptype = ''recovery'', pavailability = a\<rparr>]
            else [])"
proof -
  from assms obtain a where a: "alertAvailability (query_available c (URL self)) = Inr a"
    by (rule checkAlert_Inr_avail)
  show ?thesis using assms unfolding checkAlert_cases [OF a] alert_point_def
    by (auto simp: a split: if_splits)
qed

theorem alert_events_on_transitions_witness:
  "checkAlert (\<lambda>t. ''now'') up_client alerting_retriever 2
     = Inr (alerting_retriever\<lparr>alertStatus := False\<rparr>,
            [\<lparr>measurement = ''website_alerts'', host = ''u'', time = ''now'',
              ptype = ''recovery'', pavailability = 1\<rparr>],
            Notification ''recovery'' ''u'' 1 2 ''1'') \<and>
   checkAlert (\<lambda>t. ''now'') down_client (Retriever ''u'' (0::nat)) 1
     = Inr (\<lparr>URL = ''u'', alertStatus = True, alertNumber = 1, alertTime = 1\<rparr>,
            [\<lparr>measurement = ''website_alerts'', host = ''u'', time = ''now'',
              ptype = ''alert'', pavailability = 0\<rparr>],
            Notification ''alert'' ''u'' 0 1 ''1'') \<and>
   checkAlert (\<lambda>t. ''now'') down_client alerting_retriever 2
     = Inr (alerting_retriever, [], Notification ''alert'' ''u'' 0 1 ''1'') \<and>
   checkAlert (\<lambda>t. ''now'') up_client (Retriever ''u'' (0::nat)) 1
     = Inr (Retriever ''u'' 0, [], NoNotification)"
proof -
  have h: "checkAlert (\<lambda>t. ''now'') up_client alerting_retriever 2
     = Inr (alerting_retriever\<lparr>alertStatus := False\<rparr>,
            [\<lparr>measurement = ''website_alerts'', host = ''u'', time = ''now'',
              ptype = ''recovery'', pavailability = 1\<rparr>],
            Notification ''recovery'' ''u'' 1 2 ''1'')"
    by (simp add: checkAlert_cases avail_up alerting_retriever_def str_int_1 alert_point_def)
  have k: "checkAlert (\<lambda>t. ''now'') down_client (Retriever ''u'' (0::nat)) 1
     = Inr (\<lparr>URL = ''u'', alertStatus = True, alertNumber = 1, alertTime = 1\<rparr>,
            [\<lparr>measurement = ''website_alerts'', host = ''u'', time = ''now'',
              ptype = ''alert'', pavailability = 0\<rparr>],
            Notification ''alert'' ''u'' 0 1 ''1'')"
    by (simp add: checkAlert_cases avail_down Retriever_def str_int_1 alert_point_def)
  have l: "checkAlert (\<lambda>t. ''now'') down_client alerting_retriever 2
     = Inr (alerting_retriever, [], Notification ''alert'' ''u'' 0 1 ''1'')"
    by (simp add: checkAlert_cases avail_down alerting_retriever_def str_int_1)
  have m: "checkAlert (\<lambda>t. ''now'') up_client (Retriever ''u'' (0::nat)) 1
     = Inr (Retriever ''u'' 0, [], NoNotification)"
    by (simp add: checkAlert_cases avail_up) (simp add: Retriever_def)
  from alert_events_on_transitions [OF h] alert_events_on_transitions [OF k]
    alert_events_on_transitions [OF l] alert_events_on_transitions [OF m] h k l m
  show ?thesis by simp
qed

section \<open>The statistics of a window\<close>

lemma count_available_True:
  "count (Counter (map the (filter (\<lambda>a. a \<noteq> None) (map p_available vals)))) True
     = length (filter healthy vals)"
  by (induction vals) (auto simp: Counter_def healthy_def o_def)

lemma size_available:
  "size (Counter (map the (filter (\<lambda>a. a \<noteq> None) (map p_available vals))))
     = length (filter present vals)"
  by (induction vals) (auto simp: Counter_def present_def o_def)

lemma computeStats_series:
  "computeStats (Some (vals # rest)) =
     (if length (filter present vals) = 0 then Inl ZeroDivisionError
      else Inr (True, Some
        \<lparr>availability = of_nat (length (filter healthy vals)) / of_nat (length (filter present vals)),
         statusCodes = Counter (map p_status vals),
         avgRT = (let rts = map the (filter (\<lambda>r. r \<noteq> None) (map p_responseTime vals))
                  in if length rts = 0 then PosInf else Finite (sum_list rts / of_nat (length rts))),
         minRT = min_default (map the (filter (\<lambda>r. r \<noteq> None) (map p_responseTime vals))),
         maxRT = max_default (map the (filter (\<lambda>r. r \<noteq> None) (map p_responseTime vals)))\<rparr>))"
  unfolding computeStats_def Let_def option.case list.case
    count_available_True size_available
  by simp

lemma computeStats_Inr_cases:
  assumes "computeStats data = Inr (found, snap)"
  shows "(data = None \<and> \<not> found \<and> snap = None) \<or>
         (\<exists>vals rest. data = Some (vals # rest) \<and> filter present vals \<noteq> [] \<and> found \<and> snap \<noteq> None)"
proof (cases data)
  case None
  with assms show ?thesis by (simp add: computeStats_def)
next
  case (Some series)
  show ?thesis
  proof (cases series)
    case Nil
    with Some assms show ?thesis by (simp add: computeStats_def)
  next
    case (Cons vals rest)
    with Some assms show ?thesis
      by (auto simp: computeStats_series split: if_splits)
  qed
qed

lemma present_filter_conv: "(filter present vals \<noteq> []) = (\<exists>r\<in>set vals. p_available r \<noteq> None)"
  by (simp add: filter_empty_conv present_def)






text \<open>
  C2. The claim is that \<^verbatim>\<open>getStats\<close> never raises from a zero denominator of the
  availability. The code does raise: for a series whose only record has an absent
  availability the filtered counter is empty and the division, which unlike the one
  for \<^verbatim>\<open>avgRT\<close> stands outside any \<^verbatim>\<open>try\<close>, divides by zero.
\<close>

theorem getStats_zero_denominator_faults:
  "getStats (store_client [probe_row None (Some 200) (Some (3 / 10))])
     (Retriever ''u'' (0::nat)) 2 = Inl ZeroDivisionError"
  by (simp add: getStats_def store_client_def computeStats_series present_def probe_row_def)

text \<open>
  C4. The claim is that \<^verbatim>\<open>getStats\<close> returns \<open>found = True\<close> with a full snapshot
  whenever the window holds at least one record, and \<open>found = False\<close> exactly when
  there is no series. For a window of two records, both with an absent availability,
  the code returns neither: the same unguarded division as in C2 raises.
\<close>

theorem getStats_window_of_absent_faults:
  "length [probe_row None (Some 200) None, probe_row None None (Some (1 / 2))] = 2 \<and>
   getStats (store_client [probe_row None (Some 200) None, probe_row None None (Some (1 / 2))])
     (Retriever ''u'' (0::nat)) 10 = Inl ZeroDivisionError"
  by (simp add: getStats_def store_client_def computeStats_series present_def probe_row_def)

text \<open>
  Where \<^verbatim>\<open>getStats\<close> does return: \<open>found = False\<close> exactly when the store
  reports no series, and then with the empty snapshot; \<open>found = True\<close> with a full
  snapshot whenever the first series holds at least one record whose availability is
  present, whatever the response times are.
\<close>

lemma getStats_found:
  "((getStats client self minutes = Inr (False, snap)) =
      (query_stats client minutes (URL self) = None \<and> snap = None)) \<and>
   (\<forall>vals rest. query_stats client minutes (URL self) = Some (vals # rest) \<and>
        (\<exists>r\<in>set vals. p_available r \<noteq> None) \<longrightarrow>
      (\<exists>st. getStats client self minutes = Inr (True, Some st)))"
proof (intro conjI allI impI)
  show "(getStats client self minutes = Inr (False, snap)) =
      (query_stats client minutes (URL self) = None \<and> snap = None)"
  proof
    assume "getStats client self minutes = Inr (False, snap)"
    then have "computeStats (query_stats client minutes (URL self)) = Inr (False, snap)"
      by (simp add: getStats_def)
    from computeStats_Inr_cases [OF this]
    show "query_stats client minutes (URL self) = None \<and> snap = None" by simp
  next
    assume "query_stats client minutes (URL self) = None \<and> snap = None"
    then show "getStats client self minutes = Inr (False, snap)"
      by (simp add: getStats_def computeStats_def)
  qed
next
  fix vals rest
  assume h: "query_stats client minutes (URL self) = Some (vals # rest) \<and>
        (\<exists>r\<in>set vals. p_available r \<noteq> None)"
  then have "filter present vals \<noteq> []"
    by (simp add: present_filter_conv)
  with h show "\<exists>st. getStats client self minutes = Inr (True, Some st)"
    by (simp add: getStats_def computeStats_series)
qed

lemma getStats_found_example:
  "query_stats (store_client [probe_row (Some True) (Some 200) None, probe_row (Some False) None None])
      2 (URL (Retriever ''u'' (0::nat)))
     = Some ([probe_row (Some True) (Some 200) None, probe_row (Some False) None None] # []) \<and>
   getStats (store_client [probe_row (Some True) (Some 200) None, probe_row (Some False) None None])
      (Retriever ''u'' (0::nat)) 2
     = Inr (True, Some \<lparr>availability = 1 / 2, statusCodes = {#Some 200, None#},
          avgRT = PosInf, minRT = PosInf, maxRT = PosInf\<rparr>) \<and>
   getStats (store_client [probe_row (Some True) (Some 200) None, probe_row (Some False) None None]
              \<lparr>query_stats := \<lambda>m h. None\<rparr>)
      (Retriever ''u'' (0::nat)) 2 = Inr (False, None)"
  using getStats_found [of "store_client [probe_row (Some True) (Some 200) None, probe_row (Some False) None None]"
      "Retriever ''u'' (0::nat)" 2 None]
    getStats_found [of "store_client [probe_row (Some True) (Some 200) None, probe_row (Some False) None None]
              \<lparr>query_stats := \<lambda>m h. None\<rparr>"
      "Retriever ''u'' (0::nat)" 2 None]
  by (simp add: getStats_def store_client_def computeStats_series present_def healthy_def
      probe_row_def Counter_def min_default_def max_default_def)



lemma Counter_pair: "Counter [x, y] = {#x, y#}"
  by (simp add: Counter_def)

section \<open>The availability as a double\<close>

lemma bit_length_floorlog: "bit_length n = floorlog 2 n"
proof (induction n rule: bit_length.induct)
  case (1 n)
  show ?case
  proof (cases "n = 0")
    case True
    then show ?thesis by (simp add: bit_length.simps [of 0] floorlog_def)
  next
    case False
    with 1 show ?thesis
      by (subst bit_length.simps, subst compute_floorlog) simp
  qed
qed






lemma float_exponent_bounds:
  assumes "0 < a" and "0 < n"
  shows "(2::rat) powi (float_exponent a n) \<le> of_nat a / of_nat n"
    and "of_nat a / of_nat n < (2::rat) powi (float_exponent a n + 1)"
proof -
  define la where "la = bit_length a"
  define ln where "ln = bit_length n"
  from floorlog_bounds [of a 2] assms
  have a: "2 ^ (la - 1) \<le> a" "a < 2 ^ la"
    by (simp_all add: la_def bit_length_floorlog)
  from floorlog_bounds [of n 2] assms
  have n: "2 ^ (ln - 1) \<le> n" "n < 2 ^ ln"
    by (simp_all add: ln_def bit_length_floorlog)
  have la: "0 < la" using a(2) assms(1) by (cases la) simp_all
  have ln: "0 < ln" using n(2) assms(2) by (cases ln) simp_all
  have ra: "(2::rat) ^ (la - 1) \<le> of_nat a" "(of_nat a :: rat) < 2 ^ la"
    using a by (metis of_nat_le_iff of_nat_numeral of_nat_power, metis of_nat_less_iff of_nat_numeral of_nat_power)
  have rn: "(2::rat) ^ (ln - 1) \<le> of_nat n" "(of_nat n :: rat) < 2 ^ ln"
    using n by (metis of_nat_le_iff of_nat_numeral of_nat_power, metis of_nat_less_iff of_nat_numeral of_nat_power)
  have npos: "(0::rat) < of_nat n" using assms by simp
  have lo: "(2::rat) powi (int la - int ln - 1) \<le> of_nat a / of_nat n"
  proof -
    have "(2::rat) powi (int la - int ln - 1) = 2 ^ (la - 1) / 2 ^ ln"
      using la by (simp add: power_int_diff of_nat_diff flip: power_int_of_nat)
    also have "\<dots> \<le> of_nat a / 2 ^ ln"
      using ra(1) by (simp add: divide_right_mono)
    also have "\<dots> \<le> of_nat a / of_nat n"
      using rn(2) npos by (intro divide_left_mono) simp_all
    finally show ?thesis .
  qed
  have hi: "of_nat a / of_nat n < (2::rat) powi (int la - int ln + 1)"
  proof -
    have "of_nat a / of_nat n \<le> (of_nat a :: rat) / 2 ^ (ln - 1)"
      using rn(1) npos by (intro divide_left_mono) simp_all
    also have "\<dots> < 2 ^ la / 2 ^ (ln - 1)"
      using ra(2) by (simp add: divide_strict_right_mono)
    also have "\<dots> = (2::rat) powi (int la - int ln + 1)"
      using ln by (simp add: power_int_diff power_int_add of_nat_diff flip: power_int_of_nat)
    finally show ?thesis .
  qed
  show "(2::rat) powi (float_exponent a n) \<le> of_nat a / of_nat n"
    using lo by (simp add: float_exponent_def Let_def la_def ln_def)
  show "of_nat a / of_nat n < (2::rat) powi (float_exponent a n + 1)"
    using hi by (auto simp: float_exponent_def Let_def la_def ln_def not_le)
qed










text \<open>
  C7. When the window holds a record with a present availability and no record with
  a response time, \<^verbatim>\<open>getStats\<close> returns \<open>found = True\<close> and the minimum, the
  maximum and the average response time are all \<^verbatim>\<open>float('inf')\<close>.
\<close>

theorem latencies_absent_sentinel:
  assumes "query_stats client minutes (URL self) = Some (vals # rest)"
    and "\<exists>r\<in>set vals. p_available r \<noteq> None"
    and "\<forall>r\<in>set vals. p_responseTime r = None"
  shows "\<exists>st. getStats client self minutes = Inr (True, Some st) \<and>
     minRT st = PosInf \<and> maxRT st = PosInf \<and> avgRT st = PosInf"
proof -
  from assms(2) have p: "filter present vals \<noteq> []"
    by (simp add: present_filter_conv)
  from assms(3) have r: "filter (\<lambda>r. r \<noteq> None) (map p_responseTime vals) = []"
    by (simp add: filter_empty_conv)
  show ?thesis
    unfolding getStats_def assms(1) computeStats_series
    using p by (simp only: r) (simp add: min_default_def max_default_def)
qed

theorem latencies_absent_sentinel_witness:
  "getStats (store_client [probe_row (Some False) (Some 503) None, probe_row None None None])
      (Retriever ''u'' (0::nat)) 60
     = Inr (True, Some \<lparr>availability = 0, statusCodes = {#Some 503, None#},
          avgRT = PosInf, minRT = PosInf, maxRT = PosInf\<rparr>)"
proof -
  let ?vals = "[probe_row (Some False) (Some 503) None, probe_row None None None]"
  have 1: "query_stats (store_client ?vals) 60 (URL (Retriever ''u'' (0::nat))) = Some (?vals # [])"
    by (simp add: store_client_def)
  have 2: "\<exists>r\<in>set ?vals. p_available r \<noteq> None"
    by (simp add: probe_row_def del: not_None_eq)
  have 3: "\<forall>r\<in>set ?vals. p_responseTime r = None"
    by (simp add: probe_row_def)
  from latencies_absent_sentinel [OF 1 2 3] show ?thesis
    by (simp add: getStats_def store_client_def computeStats_series present_def healthy_def
      probe_row_def Counter_pair min_default_def max_default_def del: not_None_eq)
qed


lemma alertAvailability_series:
  "alertAvailability (Some (vals # rest)) =
     (if length vals = 0 then Inl ZeroDivisionError
      else Inr (of_nat (length (filter (\<lambda>r. a_available r = Some True) vals)) / of_nat (length vals)))"
proof -
  have "count (Counter (map a_available vals)) (Some True)
          = length (filter (\<lambda>r. a_available r = Some True) vals)"
    by (induction vals) (auto simp: Counter_def)
  moreover have "size (Counter (map a_available vals)) = length vals"
    by (simp add: Counter_def)
  ultimately show ?thesis
    unfolding alertAvailability_def Let_def option.case list.case by simp
qed

lemma healthy_selectAvailable:
  "length (filter (\<lambda>r. a_available r = Some True) (map selectAvailable pvals))
     = length (filter healthy pvals)"
  by (induction pvals) (auto simp: selectAvailable_def healthy_def)

lemma absent_iff:
  "(length (filter present vals) < length vals) = (\<exists>r\<in>set vals. p_available r = None)"
proof -
  have "(length (filter present vals) = length vals) = (\<forall>r\<in>set vals. present r)"
    by (metis filter_id_conv length_filter_less less_irrefl_nat filter_True)
  moreover have "length (filter present vals) \<le> length vals" by simp
  ultimately have "(length (filter present vals) < length vals)
      = (\<not> (\<forall>r\<in>set vals. present r))"
    by linarith
  then show ?thesis
    by (simp add: present_def)
qed

lemma healthy_iff:
  "(0 < length (filter healthy vals)) = (\<exists>r\<in>set vals. p_available r = Some True)"
  by (auto simp: healthy_def filter_empty_conv)

lemma ratio_le:
  fixes h p n :: nat
  assumes "0 < p" "p \<le> n"
  shows "(of_nat h :: rat) / of_nat n \<le> of_nat h / of_nat p"
  using assms by (intro frac_le) simp_all

lemma ratio_less:
  fixes h p n :: nat
  assumes "0 < p" "p \<le> n"
  shows "((of_nat h :: rat) / of_nat n < of_nat h / of_nat p) = (p < n \<and> 0 < h)"
proof (cases "h = 0")
  case True
  then show ?thesis by simp
next
  case False
  have pos: "(0::rat) < of_nat n" "(0::rat) < of_nat p" "(0::rat) < of_nat h"
    using assms False by simp_all
  have "((of_nat h :: rat) / of_nat n < of_nat h / of_nat p)
          = ((of_nat h :: rat) * of_nat p < of_nat h * of_nat n)"
    using pos by (simp add: divide_simps mult.commute)
  also have "\<dots> = ((of_nat p :: rat) < of_nat n)"
    using pos by simp
  also have "\<dots> = (p < n)" by simp
  finally show ?thesis using False by simp
qed

text \<open>
  C10. When both queries are answered from the same records and \<^verbatim>\<open>getStats(2)\<close>
  returns a snapshot, \<^verbatim>\<open>checkAlert\<close> computes the number of records with
  availability true over the number of all records, those with an absent availability
  included. That ratio is at most the availability of the snapshot, and strictly below
  it exactly when some record has an absent availability and some record is available.
  It is the ratio that \<^verbatim>\<open>checkAlert\<close> compares with 0.8 and reports.
\<close>

theorem checkAlert_counts_absent_records:
  assumes "query_stats client 2 (URL self) = Some (pvals # rest)"
    and "query_available client (URL self) = Some (map selectAvailable pvals # rest')"
    and "getStats client self 2 = Inr (True, Some st)"
  shows "\<exists>a. alertAvailability (query_available client (URL self)) = Inr a \<and>
     a = of_nat (length (filter healthy pvals)) / of_nat (length pvals) \<and>
     a \<le> availability st \<and>
     (a < availability st) =
       ((\<exists>r\<in>set pvals. p_available r = None) \<and> (\<exists>r\<in>set pvals. p_available r = Some True)) \<and>
     (\<not> alertStatus self \<and> a < 8 / 10 \<longrightarrow>
        (\<exists>self' pts. checkAlert f client self now
           = Inr (self', pts, Notification ''alert'' (URL self) a now
               (str_int (alertNumber self + 1)))))"
proof -
  let ?h = "length (filter healthy pvals)"
  let ?p = "length (filter present pvals)"
  let ?a = "(of_nat ?h :: rat) / of_nat (length pvals)"
  from assms(3) have c: "computeStats (Some (pvals # rest)) = Inr (True, Some st)"
    by (simp add: getStats_def assms(1))
  then have p: "0 < ?p" and st: "availability st = of_nat ?h / of_nat ?p"
    by (auto simp: computeStats_series split: if_splits)
  have n: "?p \<le> length pvals" by simp
  with p have ne: "length (map selectAvailable pvals) \<noteq> 0" by auto
  have a: "alertAvailability (query_available client (URL self)) = Inr ?a"
    unfolding assms(2) alertAvailability_series healthy_selectAvailable using ne
    by simp
  have le: "?a \<le> availability st"
    unfolding st by (rule ratio_le [OF p n])
  have less: "(?a < availability st) =
       ((\<exists>r\<in>set pvals. p_available r = None) \<and> (\<exists>r\<in>set pvals. p_available r = Some True))"
    unfolding st ratio_less [OF p n] absent_iff healthy_iff ..
  have alert: "\<not> alertStatus self \<and> ?a < 8 / 10 \<longrightarrow>
        (\<exists>self' pts. checkAlert f client self now
           = Inr (self', pts, Notification ''alert'' (URL self) ?a now
               (str_int (alertNumber self + 1))))"
    by (simp add: checkAlert_cases [OF a])
  from a le less alert show ?thesis by blast
qed

theorem checkAlert_counts_absent_records_witness:
  "getStats (store_client [probe_row (Some True) None None, probe_row (Some True) None None,
        probe_row (Some True) None None, probe_row None (Some 200) None])
      (Retriever ''u'' (0::nat)) 2
     = Inr (True, Some \<lparr>availability = 1, statusCodes = {#None, None, None, Some 200#},
          avgRT = PosInf, minRT = PosInf, maxRT = PosInf\<rparr>) \<and>
   alertAvailability (query_available
       (store_client [probe_row (Some True) None None, probe_row (Some True) None None,
          probe_row (Some True) None None, probe_row None (Some 200) None]) ''u'') = Inr (3 / 4) \<and>
   (\<exists>self' pts. checkAlert (\<lambda>t. ''now'')
       (store_client [probe_row (Some True) None None, probe_row (Some True) None None,
          probe_row (Some True) None None, probe_row None (Some 200) None])
       (Retriever ''u'' (0::nat)) 7
     = Inr (self', pts, Notification ''alert'' ''u'' (3 / 4) 7 ''1''))"
proof -
  let ?vals = "[probe_row (Some True) None None, probe_row (Some True) None None,
        probe_row (Some True) None None, probe_row None (Some 200) None]"
  let ?self = "Retriever ''u'' (0::nat)"
  let ?st = "\<lparr>availability = 1, statusCodes = {#None, None, None, Some 200#},
          avgRT = PosInf, minRT = PosInf, maxRT = PosInf\<rparr>"
  have 1: "query_stats (store_client ?vals) 2 (URL ?self) = Some (?vals # [])"
    by (simp add: store_client_def)
  have 2: "query_available (store_client ?vals) (URL ?self) = Some (map selectAvailable ?vals # [])"
    by (simp add: store_client_def)
  have 3: "getStats (store_client ?vals) ?self 2 = Inr (True, Some ?st)"
    by (simp add: getStats_def store_client_def computeStats_series present_def healthy_def
      probe_row_def Counter_def min_default_def max_default_def del: not_None_eq)
  have h: "length (filter healthy ?vals) = 3"
    by (simp add: healthy_def probe_row_def)
  from checkAlert_counts_absent_records [OF 1 2 3, of "\<lambda>t. ''now''" 7]
  obtain a where
    A: "alertAvailability (query_available (store_client ?vals) (URL ?self)) = Inr a" and
    B: "a = of_nat (length (filter healthy ?vals)) / of_nat (length ?vals)" and
    C: "\<not> alertStatus ?self \<and> a < 8 / 10 \<longrightarrow>
        (\<exists>self' pts. checkAlert (\<lambda>t. ''now'') (store_client ?vals) ?self 7
           = Inr (self', pts, Notification ''alert'' (URL ?self) a 7
               (str_int (alertNumber ?self + 1))))"
    by blast
  have a: "a = 3 / 4" unfolding B h by simp
  from A have A': "alertAvailability (query_available (store_client ?vals) ''u'') = Inr (3 / 4)"
    by (simp add: a Retriever_def)
  from C have C': "\<exists>self' pts. checkAlert (\<lambda>t. ''now'') (store_client ?vals) ?self 7
           = Inr (self', pts, Notification ''alert'' ''u'' (3 / 4) 7 ''1'')"
    by (simp add: a Retriever_def str_int_1)
  from 3 A' C' show ?thesis by blast
qed

section \<open>The timers\<close>

lemma firingCountdown_closed: "firingCountdown i = 5 - int (i mod 6)"
proof (induction i)
  case 0
  show ?case by (simp add: resultsPrintingTimer_def)
next
  case (Suc i)
  have "i mod 6 < 6" by simp
  then consider "i mod 6 = 5" | "i mod 6 < 5" by linarith
  then show ?case
  proof cases
    case 1
    then have "Suc i mod 6 = 0" by (simp add: mod_Suc)
    with 1 Suc show ?thesis by (simp add: rearm_def)
  next
    case 2
    then have "Suc i mod 6 = Suc (i mod 6)" by (simp add: mod_Suc)
    with 2 Suc show ?thesis by (simp add: rearm_def)
  qed
qed

lemma firing_long_window: "snd (rearm p (firingCountdown i)) = (6 dvd Suc i)"
proof -
  have "(firingCountdown i = 0) = (i mod 6 = 5)"
    unfolding firingCountdown_closed by linarith
  also have "\<dots> = (Suc i mod 6 = 0)"
    by (simp add: mod_Suc)
  also have "\<dots> = (6 dvd Suc i)"
    by (simp add: dvd_eq_mod_eq_0)
  finally show ?thesis by (simp add: rearm_def)
qed

lemma firing_timer: "fst (rearm p (firingCountdown i)) = PrintResults p p (firingCountdown (Suc i))"
  by (simp add: rearm_def)

lemma getStats_URL: "URL r' = URL r \<Longrightarrow> getStats c r' m = getStats c r m"
  by (simp add: getStats_def)

lemma reportWebsite_Inr:
  assumes "reportWebsite f c now pmc r = (r', pts, Inr ev)"
  shows "e_URL ev = URL r \<and>
     checkAlert f c r now = Inr (r', pts, e_alertStatus ev) \<and>
     getStats c r 2 = Inr (e_stats2m ev) \<and>
     getStats c r 10 = Inr (e_stats10m ev) \<and>
     (pmc \<longrightarrow> (\<exists>s. e_stats1h ev = Some s \<and> getStats c r 60 = Inr s)) \<and>
     (\<not> pmc \<longrightarrow> e_stats1h ev = None)"
proof (cases "checkAlert f c r now")
  case (Inl e)
  with assms show ?thesis by (simp add: reportWebsite_def)
next
  case (Inr res)
  obtain r1 pts1 ntf where res: "res = (r1, pts1, ntf)" by (cases res) auto
  from checkAlert_URL [of f c r now r1 pts1 ntf] Inr res have u: "URL r1 = URL r" by simp
  have g: "getStats c r1 m = getStats c r m" for m
    by (rule getStats_URL [OF u])
  from assms show ?thesis
    unfolding reportWebsite_def Inr res
    by (auto simp: g u split: sum.splits if_splits)
qed

lemma reportLoop_Inr:
  assumes "reportLoop f c utcnow pmc rs = (rs', pts, Inr evs)"
  shows "list_all2 (\<lambda>wr ev. e_URL ev = URL (snd wr) \<and>
       (\<exists>r' ps. checkAlert f c (snd wr) (utcnow (fst wr)) = Inr (r', ps, e_alertStatus ev)) \<and>
       getStats c (snd wr) 2 = Inr (e_stats2m ev) \<and>
       getStats c (snd wr) 10 = Inr (e_stats10m ev) \<and>
       (pmc \<longrightarrow> (\<exists>s. e_stats1h ev = Some s \<and> getStats c (snd wr) 60 = Inr s)) \<and>
       (\<not> pmc \<longrightarrow> e_stats1h ev = None)) rs evs"
  using assms
proof (induction rs arbitrary: rs' pts evs)
  case Nil
  then show ?case by simp
next
  case (Cons wr rs)
  obtain w r where wr: "wr = (w, r)" by (cases wr) auto
  obtain r1 pts1 res1 where rw: "reportWebsite f c (utcnow w) pmc r = (r1, pts1, res1)"
    by (cases "reportWebsite f c (utcnow w) pmc r") auto
  obtain rs2 pts2 res2 where rl: "reportLoop f c utcnow pmc rs = (rs2, pts2, res2)"
    by (cases "reportLoop f c utcnow pmc rs") auto
  from Cons.prems obtain ev evs2 where
    1: "res1 = Inr ev" and 2: "res2 = Inr evs2" and 3: "evs = ev # evs2"
    unfolding wr by (auto simp: rw rl split: sum.splits)
  from reportWebsite_Inr [OF rw [unfolded 1]] Cons.IH [OF rl [unfolded 2]]
  show ?case by (auto simp: wr 3)
qed

lemma reportSection_cases:
  "reportSection pmc ev =
     (if fst (e_stats2m ev) then
        WebsiteStats (e_URL ev)
          ([(2, snd (e_stats2m ev)), (10, snd (e_stats10m ev))] @
           (case e_stats1h ev of
              None \<Rightarrow> []
            | Some s60 \<Rightarrow> if pmc \<and> fst s60 then [(60, snd s60)] else []))
          (e_alertStatus ev)
      else NoData (e_URL ev))"
  by (simp add: reportSection_def)

text \<open>
  C8, amended. Firing number \<open>i + 1\<close> of the report task has
  \<^verbatim>\<open>printMinuteCheck\<close> set exactly when \<open>i + 1\<close> is a multiple of 6: five
  firings pass before the first long window, and then every sixth firing has it. Each
  firing starts the timer of the next one with the next countdown. When the loop of a
  firing ends without an exception, it has computed the 2-minute and the 10-minute
  statistics of every target, and the 60-minute statistics of every target exactly
  when the number of the firing is a multiple of 6. When the loop raises, nothing is
  printed. In a report that is printed, the part of a target is the line that says
  there is no data when \<^verbatim>\<open>getStats(2)\<close> has found none; otherwise it holds the
  2-minute and the 10-minute statistics and the notification of \<^verbatim>\<open>checkAlert\<close>,
  and between them the 60-minute statistics exactly when the number of the firing is
  a multiple of 6 and \<^verbatim>\<open>getStats(60)\<close> has found data.
\<close>

theorem long_window_every_sixth_firing:
  fixes retrievers :: "(string \<times> 't retriever) list"
  shows
  "printMinuteCheck (printResults f client utcnow retrievers p (firingCountdown i))
     = (6 dvd Suc i) \<and>
   resultsPrinting (printResults f client utcnow retrievers p (firingCountdown i))
     = PrintResults p p (firingCountdown (Suc i)) \<and>
   (\<forall>evs. evaluations (printResults f client utcnow retrievers p (firingCountdown i)) = Inr evs
      \<longrightarrow> list_all2 (\<lambda>wr ev. e_URL ev = URL (snd wr) \<and>
             getStats client (snd wr) 2 = Inr (e_stats2m ev) \<and>
             getStats client (snd wr) 10 = Inr (e_stats10m ev) \<and>
             (6 dvd Suc i \<longrightarrow>
                (\<exists>s. e_stats1h ev = Some s \<and> getStats client (snd wr) 60 = Inr s)) \<and>
             (\<not> 6 dvd Suc i \<longrightarrow> e_stats1h ev = None)) retrievers evs) \<and>
   (\<forall>e. evaluations (printResults f client utcnow retrievers p (firingCountdown i)) = Inl e
      \<longrightarrow> printed (printResults f client utcnow retrievers p (firingCountdown i)) = Inl e) \<and>
   (\<forall>secs. printed (printResults f client utcnow retrievers p (firingCountdown i)) = Inr secs
      \<longrightarrow> list_all2 (\<lambda>wr sec. \<exists>r' ps ntf s2 s10.
             checkAlert f client (snd wr) (utcnow (fst wr)) = Inr (r', ps, ntf) \<and>
             getStats client (snd wr) 2 = Inr s2 \<and>
             getStats client (snd wr) 10 = Inr s10 \<and>
             (6 dvd Suc i \<longrightarrow>
                (\<exists>s60. getStats client (snd wr) 60 = Inr s60 \<and>
                   sec = (if fst s2
                          then WebsiteStats (URL (snd wr))
                                 ([(2, snd s2), (10, snd s10)] @
                                  (if fst s60 then [(60, snd s60)] else [])) ntf
                          else NoData (URL (snd wr))))) \<and>
             (\<not> 6 dvd Suc i \<longrightarrow>
                sec = (if fst s2
                       then WebsiteStats (URL (snd wr)) [(2, snd s2), (10, snd s10)] ntf
                       else NoData (URL (snd wr))))) retrievers secs)"
proof -
  let ?pmc = "6 dvd Suc i"
  let ?fr = "printResults f client utcnow retrievers p (firingCountdown i)"
  obtain rs' pts res where
    rl: "reportLoop f client utcnow ?pmc retrievers = (rs', pts, res)"
    by (cases "reportLoop f client utcnow ?pmc retrievers") auto
  have ra: "rearm p (firingCountdown i) = (PrintResults p p (firingCountdown (Suc i)), ?pmc)"
    using firing_long_window [of p i] firing_timer [of p i]
    by (cases "rearm p (firingCountdown i)") simp
  have pr: "?fr =
      \<lparr>resultsPrinting = PrintResults p p (firingCountdown (Suc i)), printMinuteCheck = ?pmc,
       retrieversAfter = rs', written = pts, evaluations = res,
       printed = map_sum id (map (reportSection ?pmc)) res\<rparr>"
    unfolding printResults_def ra by (simp add: rl)
  have 1: "printMinuteCheck ?fr = ?pmc" by (simp add: pr)
  have 2: "resultsPrinting ?fr = PrintResults p p (firingCountdown (Suc i))" by (simp add: pr)
  have 3: "list_all2 (\<lambda>wr ev. e_URL ev = URL (snd wr) \<and>
             getStats client (snd wr) 2 = Inr (e_stats2m ev) \<and>
             getStats client (snd wr) 10 = Inr (e_stats10m ev) \<and>
             (?pmc \<longrightarrow>
                (\<exists>s. e_stats1h ev = Some s \<and> getStats client (snd wr) 60 = Inr s)) \<and>
             (\<not> ?pmc \<longrightarrow> e_stats1h ev = None)) retrievers evs"
    if "evaluations ?fr = Inr evs" for evs
  proof -
    from that have "res = Inr evs" by (simp add: pr)
    from reportLoop_Inr [OF rl [unfolded this]] show ?thesis
      by (rule list_all2_mono) blast
  qed
  have 4: "printed ?fr = Inl e" if "evaluations ?fr = Inl e" for e
    using that by (simp add: pr)
  have 5: "list_all2 (\<lambda>wr sec. \<exists>r' ps ntf s2 s10.
             checkAlert f client (snd wr) (utcnow (fst wr)) = Inr (r', ps, ntf) \<and>
             getStats client (snd wr) 2 = Inr s2 \<and>
             getStats client (snd wr) 10 = Inr s10 \<and>
             (?pmc \<longrightarrow>
                (\<exists>s60. getStats client (snd wr) 60 = Inr s60 \<and>
                   sec = (if fst s2
                          then WebsiteStats (URL (snd wr))
                                 ([(2, snd s2), (10, snd s10)] @
                                  (if fst s60 then [(60, snd s60)] else [])) ntf
                          else NoData (URL (snd wr))))) \<and>
             (\<not> ?pmc \<longrightarrow>
                sec = (if fst s2
                       then WebsiteStats (URL (snd wr)) [(2, snd s2), (10, snd s10)] ntf
                       else NoData (URL (snd wr))))) retrievers secs"
    if "printed ?fr = Inr secs" for secs
  proof -
    from that obtain evs where res: "res = Inr evs" and secs: "secs = map (reportSection ?pmc) evs"
      by (cases res) (auto simp: pr)
    have "list_all2 (\<lambda>wr ev. \<exists>r' ps ntf s2 s10.
             checkAlert f client (snd wr) (utcnow (fst wr)) = Inr (r', ps, ntf) \<and>
             getStats client (snd wr) 2 = Inr s2 \<and>
             getStats client (snd wr) 10 = Inr s10 \<and>
             (?pmc \<longrightarrow>
                (\<exists>s60. getStats client (snd wr) 60 = Inr s60 \<and>
                   reportSection ?pmc ev = (if fst s2
                          then WebsiteStats (URL (snd wr))
                                 ([(2, snd s2), (10, snd s10)] @
                                  (if fst s60 then [(60, snd s60)] else [])) ntf
                          else NoData (URL (snd wr))))) \<and>
             (\<not> ?pmc \<longrightarrow>
                reportSection ?pmc ev = (if fst s2
                       then WebsiteStats (URL (snd wr)) [(2, snd s2), (10, snd s10)] ntf
                       else NoData (URL (snd wr))))) retrievers evs"
      using reportLoop_Inr [OF rl [unfolded res]]
      by (rule list_all2_mono) (auto simp: reportSection_cases)
    then show ?thesis
      unfolding secs by (simp add: list_all2_map2)
  qed
  from 1 2 3 4 5 show ?thesis by blast
qed

lemma fire_eq: "fireGetResults dur t m ci =
   \<lparr>clock = t + dur m, fires = [(t + ci, GetResults ci m ci)], probes = [(m, t, t + dur m)]\<rparr>"
  by (simp add: fireGetResults_def getResults_def)


lemma firingCountdown_4: "firingCountdown 4 = 1"
  by (simp add: firingCountdown_closed)

lemma firingCountdown_5: "firingCountdown 5 = 0"
  by (simp add: firingCountdown_closed)

lemma firingCountdown_9: "firingCountdown 9 = 2"
  by (simp add: firingCountdown_closed)

lemma firingCountdown_11: "firingCountdown 11 = 0"
  by (simp add: firingCountdown_closed)

text \<open>
  C8, as stated, fails: the fifth and the tenth firing of the report task do not
  compute the 60-minute statistics; the sixth and the twelfth do.
\<close>

theorem long_window_every_fifth_firing_counterexample:
  "printMinuteCheck (printResults (\<lambda>t. ''now'') one_record_client (\<lambda>w. 0::nat) [] 10
      (firingCountdown 4)) = False \<and>
   printMinuteCheck (printResults (\<lambda>t. ''now'') one_record_client (\<lambda>w. 0::nat) [] 10
      (firingCountdown 5)) = True \<and>
   printMinuteCheck (printResults (\<lambda>t. ''now'') one_record_client (\<lambda>w. 0::nat) [] 10
      (firingCountdown 9)) = False \<and>
   printMinuteCheck (printResults (\<lambda>t. ''now'') one_record_client (\<lambda>w. 0::nat) [] 10
      (firingCountdown 11)) = True"
  by (simp add: firingCountdown_4 firingCountdown_5 firingCountdown_9 firingCountdown_11
      printResults_def rearm_def)

lemma one_record_getStats:
  "getStats one_record_client (Retriever ''u'' (0::nat)) m = Inr (True, Some one_record_stats)"
  by (simp add: one_record_client_def one_record_stats_def getStats_def store_client_def
      computeStats_series present_def healthy_def probe_row_def Counter_def min_default_def
      max_default_def del: not_None_eq)

lemma one_record_avail:
  "alertAvailability (query_available one_record_client h) = Inr 1"
  by (simp add: one_record_client_def store_client_def alertAvailability_series
      selectAvailable_def probe_row_def)

theorem long_window_every_sixth_firing_witness:
  "printed (printResults (\<lambda>t. ''now'') one_record_client (\<lambda>w. 9)
      [(''u'', Retriever ''u'' (0::nat))] 10 (firingCountdown 5))
     = Inr [WebsiteStats ''u''
             [(2, Some one_record_stats), (10, Some one_record_stats),
              (60, Some one_record_stats)] NoNotification] \<and>
   evaluations (printResults (\<lambda>t. ''now'') one_record_client (\<lambda>w. 9)
      [(''u'', Retriever ''u'' (0::nat))] 10 (firingCountdown 5))
     = Inr [\<lparr>e_URL = ''u'', e_alertStatus = NoNotification,
             e_stats2m = (True, Some one_record_stats),
             e_stats10m = (True, Some one_record_stats),
             e_stats1h = Some (True, Some one_record_stats)\<rparr>] \<and>
   printed (printResults (\<lambda>t. ''now'') one_record_client (\<lambda>w. 9)
      [(''u'', Retriever ''u'' (0::nat))] 10 (firingCountdown 4))
     = Inr [WebsiteStats ''u''
             [(2, Some one_record_stats), (10, Some one_record_stats)] NoNotification] \<and>
   evaluations (printResults (\<lambda>t. ''now'') one_record_client (\<lambda>w. 9)
      [(''u'', Retriever ''u'' (0::nat))] 10 (firingCountdown 4))
     = Inr [\<lparr>e_URL = ''u'', e_alertStatus = NoNotification,
             e_stats2m = (True, Some one_record_stats),
             e_stats10m = (True, Some one_record_stats),
             e_stats1h = None\<rparr>] \<and>
   getStats one_record_client (Retriever ''u'' (0::nat)) 60 = Inr (True, Some one_record_stats) \<and>
   evaluations (printResults (\<lambda>t. ''now'') no_alert_series_client (\<lambda>w. 9)
      [(''u'', Retriever ''u'' (0::nat))] 10 (firingCountdown 5)) = Inl KeyError \<and>
   printed (printResults (\<lambda>t. ''now'') no_alert_series_client (\<lambda>w. 9)
      [(''u'', Retriever ''u'' (0::nat))] 10 (firingCountdown 5)) = Inl KeyError"
proof -
  have c: "checkAlert (\<lambda>t. ''now'') one_record_client (Retriever ''u'' (0::nat)) 9
      = Inr (Retriever ''u'' 0, [], NoNotification)"
    by (simp add: checkAlert_cases one_record_avail) (simp add: Retriever_def)
  have e5: "evaluations (printResults (\<lambda>t. ''now'') one_record_client (\<lambda>w. 9)
      [(''u'', Retriever ''u'' (0::nat))] 10 (firingCountdown 5))
     = Inr [\<lparr>e_URL = ''u'', e_alertStatus = NoNotification,
             e_stats2m = (True, Some one_record_stats),
             e_stats10m = (True, Some one_record_stats),
             e_stats1h = Some (True, Some one_record_stats)\<rparr>]"
    by (simp add: firingCountdown_5 printResults_def rearm_def reportWebsite_def c
        one_record_getStats) (simp add: Retriever_def)
  have p5: "printed (printResults (\<lambda>t. ''now'') one_record_client (\<lambda>w. 9)
      [(''u'', Retriever ''u'' (0::nat))] 10 (firingCountdown 5))
     = Inr [WebsiteStats ''u''
             [(2, Some one_record_stats), (10, Some one_record_stats),
              (60, Some one_record_stats)] NoNotification]"
    by (simp add: firingCountdown_5 printResults_def rearm_def reportWebsite_def c
        one_record_getStats reportSection_def) (simp add: Retriever_def)
  have e4: "evaluations (printResults (\<lambda>t. ''now'') one_record_client (\<lambda>w. 9)
      [(''u'', Retriever ''u'' (0::nat))] 10 (firingCountdown 4))
     = Inr [\<lparr>e_URL = ''u'', e_alertStatus = NoNotification,
             e_stats2m = (True, Some one_record_stats),
             e_stats10m = (True, Some one_record_stats),
             e_stats1h = None\<rparr>]"
    by (simp add: firingCountdown_4 printResults_def rearm_def reportWebsite_def c
        one_record_getStats) (simp add: Retriever_def)
  have p4: "printed (printResults (\<lambda>t. ''now'') one_record_client (\<lambda>w. 9)
      [(''u'', Retriever ''u'' (0::nat))] 10 (firingCountdown 4))
     = Inr [WebsiteStats ''u''
             [(2, Some one_record_stats), (10, Some one_record_stats)] NoNotification]"
    by (simp add: firingCountdown_4 printResults_def rearm_def reportWebsite_def c
        one_record_getStats reportSection_def) (simp add: Retriever_def)
  have n: "checkAlert (\<lambda>t. ''now'') no_alert_series_client (Retriever ''u'' (0::nat)) 9
      = Inl KeyError"
    by (simp add: checkAlert_def alertAvailability_def no_alert_series_client_def)
  have en: "evaluations (printResults (\<lambda>t. ''now'') no_alert_series_client (\<lambda>w. 9)
      [(''u'', Retriever ''u'' (0::nat))] 10 (firingCountdown 5)) = Inl KeyError"
    by (simp add: firingCountdown_5 printResults_def rearm_def reportWebsite_def n)
  from long_window_every_sixth_firing [of "\<lambda>t. ''now''" one_record_client "\<lambda>w. 9"
      "[(''u'', Retriever ''u'' (0::nat))]" 10 5]
    long_window_every_sixth_firing [of "\<lambda>t. ''now''" no_alert_series_client "\<lambda>w. 9"
      "[(''u'', Retriever ''u'' (0::nat))]" 10 5] e5 p5 e4 p4 en
  show ?thesis by auto
qed

text \<open>
  C9, amended. A firing of the probe task first starts the timer of its next firing,
  with the same monitor and interval, and then triggers exactly one probe. The next
  firing is \<open>checkInterval\<close> seconds after the start of this one, whatever the probe
  lasts, and the probe of the next firing overlaps this probe exactly when this probe
  lasts longer than \<open>checkInterval\<close>.
\<close>

theorem probe_rearmed_before_probing:
  assumes "0 < checkInterval" and "0 \<le> dur' monitor"
  shows "getResults monitor checkInterval
       = [Start (GetResults checkInterval monitor checkInterval), Get monitor] \<and>
     fireGetResults dur t monitor checkInterval
       = \<lparr>clock = t + dur monitor,
          fires = [(t + checkInterval, GetResults checkInterval monitor checkInterval)],
          probes = [(monitor, t, t + dur monitor)]\<rparr> \<and>
     (\<exists>p p'. probes (fireGetResults dur t monitor checkInterval) = [p] \<and>
        probes (fireGetResults dur' (t + checkInterval) monitor checkInterval) = [p'] \<and>
        overlap p p' = (checkInterval < dur monitor))"
  using assms
  by (auto simp: fire_eq getResults_def overlap_def intro: add_pos_nonneg)

theorem probe_rearmed_before_probing_witness:
  "fireGetResults (\<lambda>m. 1 / 2) 0 ''u'' 2
     = \<lparr>clock = 1 / 2, fires = [(2, GetResults 2 ''u'' 2)], probes = [(''u'', 0, 1 / 2)]\<rparr> \<and>
   \<not> overlap (''u'', 0, 1 / 2) (''u'', 2, 5 / 2)"
  using probe_rearmed_before_probing [of 2 "\<lambda>m. 1 / 2" "''u''" "\<lambda>m. 1 / 2" 0]
  by (simp add: overlap_def)

text \<open>
  C9, as stated, fails: with an interval of 2 seconds and a probe of 5 seconds, the
  firing at time 0 arms the next firing for time 2, not for 5 + 2, and the probe of
  that next firing (from 2 to 7) overlaps the probe still running (from 0 to 5).
\<close>

theorem probe_after_completion_counterexample:
  "fires (fireGetResults (\<lambda>m. 5) 0 ''u'' 2) = [(2, GetResults 2 ''u'' 2)] \<and>
   clock (fireGetResults (\<lambda>m. 5) 0 ''u'' 2) = 5 \<and>
   probes (fireGetResults (\<lambda>m. 5) 0 ''u'' 2) = [(''u'', 0, 5)] \<and>
   probes (fireGetResults (\<lambda>m. 5) 2 ''u'' 2) = [(''u'', 2, 7)] \<and>
   overlap (''u'', 0, 5) (''u'', 2, 7)"
  by (simp add: fireGetResults_def getResults_def overlap_def)

end
